theory Spec2Isabelle
  imports Complex_Main "HOL-Library.Word" "HOL-Library.Sublist" "HOL-Library.Log_Nat"
    "HOL-Library.Code_Target_Numeral"
begin

section \<open>Crater detection: data model\<close>

text \<open>
  The program is one Python module, \<^verbatim>\<open>main.py\<close>. It walks a dataset directory, reads
  every image as a grayscale grid, runs \<^verbatim>\<open>detect_craters\<close> on it and writes one CSV row
  per detected ellipse, or one row of \<^verbatim>\<open>-1\<close> when nothing was detected.

  A grayscale image is a grid of 8-bit samples. A contour is the point array that
  \<^verbatim>\<open>cv2.findContours\<close> returns, and \<^verbatim>\<open>len(cnt)\<close> is its number of points. The fitter
  returns \<^verbatim>\<open>((cx, cy), (major, minor), angle)\<close>, and a detection is the tuple
  \<^verbatim>\<open>(cx, cy, major / 2, minor / 2, angle)\<close>. Python floats are modelled by the real
  numbers they denote: the comparisons with 10 and the halving are then the exact
  operations. Where the source rounds, the result is rounded to the nearest double as
  Python does. Infinities, values that are not numbers, the negative zero and values
  beyond the range of a double are not part of the model.
\<close>

type_synonym sample_grid = "8 word list list"
type_synonym contour = "(int \<times> int) list"
type_synonym rotated_rect = "(real \<times> real) \<times> (real \<times> real) \<times> real"
type_synonym detection = "real \<times> real \<times> real \<times> real \<times> real"

text \<open>
  A path is the tuple of its components, as \<^verbatim>\<open>Path.parts\<close> gives it; the last
  component of a file's path is the file name.
\<close>

type_synonym path = "string list"

text \<open>
  The exceptions that the modelled code can raise: \<^verbatim>\<open>ValueError\<close> from
  \<^verbatim>\<open>relative_to\<close>, \<^verbatim>\<open>IndexError\<close> from indexing a tuple, and \<^verbatim>\<open>cv2.error\<close> from
  the fitter.
\<close>

datatype error = ValueError | IndexError | CvError

text \<open>The flags passed to the library calls.\<close>

datatype thresh_type = THRESH_BINARY | THRESH_BINARY_INV | THRESH_TRUNC | THRESH_TOZERO
datatype retr_mode = RETR_EXTERNAL | RETR_LIST | RETR_CCOMP | RETR_TREE
datatype approx_mode = CHAIN_APPROX_NONE | CHAIN_APPROX_SIMPLE
datatype imread_flag = IMREAD_GRAYSCALE | IMREAD_COLOR

text \<open>
  The OpenCV functions are not part of the repository. They are parameters of the
  model, collected in one record; each field takes the arguments the source passes.
  \<^verbatim>\<open>imread\<close> returns \<^verbatim>\<open>None\<close> for a file it cannot decode, and \<^verbatim>\<open>fitEllipse\<close> may
  raise. \<^verbatim>\<open>threshold\<close> and \<^verbatim>\<open>findContours\<close> return pairs of which the source keeps
  the second and the first component.
\<close>

record cv2 =
  imread :: "path \<Rightarrow> imread_flag \<Rightarrow> sample_grid option"
  GaussianBlur :: "sample_grid \<Rightarrow> nat \<times> nat \<Rightarrow> real \<Rightarrow> sample_grid"
  threshold :: "sample_grid \<Rightarrow> real \<Rightarrow> real \<Rightarrow> thresh_type \<Rightarrow> real \<times> sample_grid"
  Canny :: "sample_grid \<Rightarrow> real \<Rightarrow> real \<Rightarrow> sample_grid"
  findContours :: "sample_grid \<Rightarrow> retr_mode \<Rightarrow> approx_mode \<Rightarrow> contour list \<times> int list list"
  fitEllipse :: "contour \<Rightarrow> error + rotated_rect"

text \<open>A CSV cell is what \<^verbatim>\<open>writer.writerow\<close> receives: an int, a float or a string.\<close>

datatype cell = IntCell int | FloatCell real | StrCell string

type_synonym row = "cell list"

section \<open>Dataset utilities\<close>

text \<open>
  \<^verbatim>\<open>img_path.relative_to(dataset_root)\<close>: the components after the root's, or
  \<^verbatim>\<open>ValueError\<close> when the path is not below the root.
\<close>

definition relative_to :: "path \<Rightarrow> path \<Rightarrow> error + path" where
  "relative_to img_path dataset_root =
     (if prefix dataset_root img_path then Inr (drop (length dataset_root) img_path)
      else Inl ValueError)"

text \<open>Indexing a tuple with a non-negative constant: \<^verbatim>\<open>parts[i]\<close>.\<close>

definition getitem :: "'a list \<Rightarrow> nat \<Rightarrow> error + 'a" where
  "getitem xs i = (if i < length xs then Inr (xs ! i) else Inl IndexError)"

text \<open>\<^verbatim>\<open>str.rfind\<close> for one character: the last index of it, or \<^verbatim>\<open>-1\<close>.\<close>

fun rfind :: "char \<Rightarrow> string \<Rightarrow> int" where
  "rfind c [] = - 1"
| "rfind c (x # xs) =
     (let r = rfind c xs in if 0 \<le> r then r + 1 else if x = c then 0 else - 1)"

text \<open>
  \<^verbatim>\<open>Path.name\<close> and \<^verbatim>\<open>Path.stem\<close>, as pathlib defines them: the stem is the name up
  to its last dot, unless that dot is the first or the last character.
\<close>

definition name :: "path \<Rightarrow> string" where
  "name p = (if p = [] then [] else last p)"

definition stem :: "path \<Rightarrow> string" where
  "stem p =
     (let n = name p; i = rfind CHR ''.'' n
      in if 0 < i \<and> i < int (length n) - 1 then take (nat i) n else n)"

text \<open>
  \<^verbatim>\<open>image_id_from_path\<close>: the f-string reads \<^verbatim>\<open>parts[0]\<close>, then \<^verbatim>\<open>parts[1]\<close>, then
  the stem.
\<close>

definition image_id_from_path :: "path \<Rightarrow> path \<Rightarrow> error + string" where
  "image_id_from_path img_path dataset_root =
     (case relative_to img_path dataset_root of
        Inl e \<Rightarrow> Inl e
      | Inr parts \<Rightarrow>
          let image_name = stem img_path in
          (case getitem parts 0 of
             Inl e \<Rightarrow> Inl e
           | Inr p0 \<Rightarrow>
               (case getitem parts 1 of
                  Inl e \<Rightarrow> Inl e
                | Inr p1 \<Rightarrow> Inr (p0 @ ''/'' @ p1 @ ''/'' @ image_name))))"

section \<open>Crater detector\<close>

text \<open>
  The body of the loop after the fit (lines 63 to 73): the size filter, the swap and
  the halving. \<^verbatim>\<open>None\<close> is the \<^verbatim>\<open>continue\<close> of the filter, \<^verbatim>\<open>Some\<close> the tuple that is
  appended.
\<close>

definition ellipse_entry :: "rotated_rect \<Rightarrow> detection option" where
  "ellipse_entry ellipse =
     (case ellipse of ((cx, cy), (major, minor), angle) \<Rightarrow>
        if major < 10 \<or> minor < 10 then None
        else
          let (major, minor) = (if minor > major then (minor, major) else (major, minor))
          in Some (cx, cy, major / 2, minor / 2, angle))"

text \<open>
  The loop over the contours, with the list \<^verbatim>\<open>detections\<close> as accumulator. An
  exception of the fitter ends the loop and the function.
\<close>

fun detect_loop :: "(contour \<Rightarrow> error + rotated_rect) \<Rightarrow> contour list \<Rightarrow> detection list
    \<Rightarrow> error + detection list" where
  "detect_loop fit [] detections = Inr detections"
| "detect_loop fit (cnt # contours) detections =
     (if length cnt < 5 then detect_loop fit contours detections
      else
        (case fit cnt of
           Inl e \<Rightarrow> Inl e
         | Inr ellipse \<Rightarrow>
             (case ellipse_entry ellipse of
                None \<Rightarrow> detect_loop fit contours detections
              | Some d \<Rightarrow> detect_loop fit contours (detections @ [d]))))"

definition detect_craters :: "cv2 \<Rightarrow> sample_grid \<Rightarrow> error + detection list" where
  "detect_craters cv img =
     (let img_blur = GaussianBlur cv img (5, 5) 0;
          img_thresh = snd (threshold cv img_blur 30 255 THRESH_BINARY);
          edges = Canny cv img_thresh 50 150;
          contours = fst (findContours cv edges RETR_EXTERNAL CHAIN_APPROX_SIMPLE)
      in detect_loop (fitEllipse cv) contours [])"

section \<open>Main pipeline\<close>

text \<open>
  Doubles. \<open>floor_log b a\<close> is the integer part of the logarithm of \<open>a > 0\<close> to the
  base \<open>b\<close>. \<open>nearest_double\<close> rounds a real to the nearest IEEE 754 binary64 value,
  a tie going to the even significand: the spacing of the doubles around \<open>x\<close> is 2 to
  the power of its binary exponent minus 52, and the exponent is not taken below that
  of the smallest normal double, -1022.
\<close>

definition floor_log :: "nat \<Rightarrow> real \<Rightarrow> int" where
  "floor_log b a =
     (if 1 \<le> a then int (floorlog b (nat \<lfloor>a\<rfloor>)) - 1
      else - int (floorlog b (nat (\<lceil>1 / a\<rceil> - 1))))"

definition round_half_even :: "real \<Rightarrow> int" where
  "round_half_even x =
     (let f = \<lfloor>x\<rfloor>; d = x - of_int f
      in if d < 1 / 2 then f else if 1 / 2 < d then f + 1 else if even f then f else f + 1)"

definition nearest_double :: "real \<Rightarrow> real" where
  "nearest_double x =
     (if x = 0 then 0
      else
        let ulp = 2 powi (max (floor_log 2 \<bar>x\<bar>) (- 1022) - 52)
        in of_int (round_half_even (x / ulp)) * ulp)"

text \<open>
  \<^verbatim>\<open>round(x, 2)\<close> on a float: the exact value of the double is rounded to a whole
  number of hundredths, a tie going to the even one, and the result is the double
  nearest to that decimal. The argument is a float: a real that is not a double is
  read as the double nearest to it, as a literal is. \<^verbatim>\<open>float(cx)\<close> on a float is the
  float itself.
\<close>

definition py_round2 :: "real \<Rightarrow> real" where
  "py_round2 x = nearest_double (of_int (round_half_even (nearest_double x * 100)) / 100)"

definition header :: row where
  "header =
     [StrCell ''ellipseCenterX(px)'', StrCell ''ellipseCenterY(px)'',
      StrCell ''ellipseSemimajor(px)'', StrCell ''ellipseSemiminor(px)'',
      StrCell ''ellipseRotation(deg)'', StrCell ''inputImage'',
      StrCell ''crater_classification'']"

definition sentinel_row :: "string \<Rightarrow> row" where
  "sentinel_row image_id =
     [IntCell (- 1), IntCell (- 1), IntCell (- 1), IntCell (- 1), IntCell (- 1),
      StrCell image_id, IntCell (- 1)]"

definition detection_row :: "string \<Rightarrow> detection \<Rightarrow> row" where
  "detection_row image_id d =
     (case d of (cx, cy, a, b, angle) \<Rightarrow>
        [FloatCell (py_round2 cx), FloatCell (py_round2 cy), FloatCell (py_round2 a),
         FloatCell (py_round2 b), FloatCell (py_round2 angle), StrCell image_id,
         IntCell (- 1)])"

text \<open>The rows written for one image (lines 115 to 131).\<close>

definition image_rows :: "string \<Rightarrow> detection list \<Rightarrow> row list" where
  "image_rows image_id detections =
     (if length detections = 0 then [sentinel_row image_id]
      else map (detection_row image_id) detections)"

text \<open>
  The loop of \<^verbatim>\<open>main\<close> over the collected images; \<^verbatim>\<open>written\<close> is the list of rows
  given to the writer so far. An image that cannot be read is skipped; an exception of
  \<^verbatim>\<open>image_id_from_path\<close> or of the detector ends the run.
\<close>

fun main_loop :: "cv2 \<Rightarrow> path \<Rightarrow> path list \<Rightarrow> row list \<Rightarrow> error + row list" where
  "main_loop cv dataset_root [] written = Inr written"
| "main_loop cv dataset_root (img_path # images) written =
     (case imread cv img_path IMREAD_GRAYSCALE of
        None \<Rightarrow> main_loop cv dataset_root images written
      | Some img \<Rightarrow>
          (case image_id_from_path img_path dataset_root of
             Inl e \<Rightarrow> Inl e
           | Inr image_id \<Rightarrow>
               (case detect_craters cv img of
                  Inl e \<Rightarrow> Inl e
                | Inr detections \<Rightarrow>
                    main_loop cv dataset_root images
                      (written @ image_rows image_id detections))))"

definition main :: "cv2 \<Rightarrow> path \<Rightarrow> path list \<Rightarrow> error + row list" where
  "main cv dataset_root images = main_loop cv dataset_root images [header]"

section \<open>The text of a field\<close>

text \<open>
  \<^verbatim>\<open>csv.writer\<close> writes \<^verbatim>\<open>str(field)\<close> for a field that is not a string, and a
  number needs no quoting. \<^verbatim>\<open>str\<close> of an int is its decimal digits with a minus sign
  when negative.
\<close>

fun nat_digits :: "nat \<Rightarrow> string" where
  "nat_digits n =
     (if n < 10 then [''0123456789'' ! n]
      else nat_digits (n div 10) @ [''0123456789'' ! (n mod 10)])"

definition int_str :: "int \<Rightarrow> string" where
  "int_str i = (if i < 0 then ''-'' @ nat_digits (nat (- i)) else nat_digits (nat i))"

text \<open>
  \<^verbatim>\<open>str\<close> of a float is its \<^verbatim>\<open>repr\<close>: the shortest string of decimal digits that
  reads back as the same double, and the closest to it where two of that length do.
  \<open>round_trip_digits a q\<close> looks for such digits \<open>m\<close> with \<open>m * 10\<^sup>q\<close> next to
  \<open>a\<close>; \<open>shortest_digits a decpt n\<close> tries \<open>n\<close> digits, then one more, up to 16, and
  takes the nearest 17 digits otherwise, which always read back.
\<close>

definition round_trip_digits :: "real \<Rightarrow> int \<Rightarrow> int option" where
  "round_trip_digits a q =
     (let s = 10 powi q; lo = \<lfloor>a / s\<rfloor>; hi = lo + 1;
          ok_lo = (nearest_double (of_int lo * s) = a);
          ok_hi = (nearest_double (of_int hi * s) = a)
      in if ok_lo \<and> ok_hi then
           (if a - of_int lo * s < of_int hi * s - a then Some lo
            else if of_int hi * s - a < a - of_int lo * s then Some hi
            else if even lo then Some lo else Some hi)
         else if ok_lo then Some lo
         else if ok_hi then Some hi
         else None)"

function shortest_digits :: "real \<Rightarrow> int \<Rightarrow> nat \<Rightarrow> int \<times> int" where
  "shortest_digits a decpt n =
     (if 17 \<le> n then (round_half_even (a / 10 powi (decpt - int n)), decpt - int n)
      else
        (case round_trip_digits a (decpt - int n) of
           Some m \<Rightarrow> (m, decpt - int n)
         | None \<Rightarrow> shortest_digits a decpt (Suc n)))"
  by pat_completeness auto
termination
  by (relation "measure (\<lambda>(a, decpt, n). 17 - n)") auto

fun strip_zeros :: "string \<Rightarrow> string" where
  "strip_zeros ds =
     (if ds \<noteq> [] \<and> last ds = CHR ''0'' \<and> length ds > 1 then strip_zeros (butlast ds)
      else ds)"

text \<open>
  The digits are written with a decimal point, and with an exponent when the point
  stands more than 16 places right of the first digit or more than 3 zeros left of it;
  a whole number gets \<^verbatim>\<open>.0\<close>. \<open>decpt\<close> is the place of the point, counted from
  the left of the first digit.
\<close>

definition float_repr_pos :: "real \<Rightarrow> string" where
  "float_repr_pos a =
     (let (m, q) = shortest_digits a (floor_log 10 a + 1) 1;
          all = nat_digits (nat m);
          decpt = q + int (length all);
          ds = strip_zeros all
      in if decpt \<le> - 4 \<or> 16 < decpt then
           [hd ds] @ (if tl ds = [] then [] else ''.'' @ tl ds) @ ''e'' @
           (let e = decpt - 1
            in (if e < 0 then ''-'' else ''+'') @
               (if \<bar>e\<bar> < 10 then ''0'' else []) @ nat_digits (nat \<bar>e\<bar>))
         else if decpt \<le> 0 then ''0.'' @ replicate (nat (- decpt)) CHR ''0'' @ ds
         else if nat decpt < length ds then take (nat decpt) ds @ ''.'' @ drop (nat decpt) ds
         else ds @ replicate (nat decpt - length ds) CHR ''0'' @ ''.0'')"

definition float_repr :: "real \<Rightarrow> string" where
  "float_repr x =
     (if x = 0 then ''0.0''
      else if x < 0 then ''-'' @ float_repr_pos (- x)
      else float_repr_pos x)"


section \<open>Notions of the specification\<close>

text \<open>
  The numeric value of a cell, and the sentinel record: a row whose five geometric
  fields all have the value \<^verbatim>\<open>-1\<close>, whether written as an int or as a float.
\<close>

fun cell_value :: "cell \<Rightarrow> real option" where
  "cell_value (IntCell i) = Some (of_int i)"
| "cell_value (FloatCell x) = Some x"
| "cell_value (StrCell s) = None"

definition is_sentinel :: "row \<Rightarrow> bool" where
  "is_sentinel r =
     (map cell_value (take 5 r) = [Some (- 1), Some (- 1), Some (- 1), Some (- 1), Some (- 1)])"

text \<open>The segments of an identifier: the pieces between its slashes.\<close>

fun segments :: "string \<Rightarrow> string list" where
  "segments [] = [[]]"
| "segments (c # cs) =
     (if c = CHR ''/'' then [] # segments cs
      else (case segments cs of [] \<Rightarrow> [[c]] | s # ss \<Rightarrow> (c # s) # ss))"

section \<open>A small library instance\<close>

text \<open>
  An instance of the library interface on which the model can be run: three contours
  are found in every non-empty image, one with three points, one fitted with axes
  \<open>(20, 40)\<close> and one fitted with axes \<open>(8, 20)\<close>; the fitter raises below five
  points, as OpenCV's does.
\<close>

definition stub_contour :: contour where
  "stub_contour = [(0, 0), (1, 0), (1, 1)]"

definition rim_contour :: contour where
  "rim_contour = [(80, 100), (90, 92), (100, 90), (110, 92), (120, 100), (100, 110)]"

definition speck_contour :: contour where
  "speck_contour = [(3, 3), (4, 2), (5, 3), (5, 10), (4, 11), (3, 10)]"

definition cv_example :: cv2 where
  "cv_example =
     \<lparr>imread = (\<lambda>p flag. if p = [] \<or> last p = ''corrupt.png'' then None
                         else if last p = ''blank.png'' then Some []
                         else Some [[0, 200], [200, 0]]),
      GaussianBlur = (\<lambda>img ksize sigma. img),
      threshold = (\<lambda>img thresh maxval ty. (thresh, img)),
      Canny = (\<lambda>img lo hi. img),
      findContours = (\<lambda>img mode method.
         (if img = [] then [] else [stub_contour, rim_contour, speck_contour], [])),
      fitEllipse = (\<lambda>cnt. if length cnt < 5 then Inl CvError
                           else if cnt = rim_contour then Inr ((100, 100), (20, 40), 30)
                           else Inr ((4, 13 / 2), (8, 20), 0))\<rparr>"

definition example_grid :: sample_grid where
  "example_grid = [[0, 200], [200, 0]]"

section \<open>The size filter and the loop of the detector\<close>

text \<open>What an accepted fit looks like: both axes are at least 10, and the tuple holds the
  larger axis halved, then the smaller axis halved.\<close>

lemma ellipse_entry_SomeD:
  assumes "ellipse_entry ((cx, cy), (major, minor), angle) = Some d"
  shows "\<not> major < 10 \<and> \<not> minor < 10 \<and> d = (cx, cy, max major minor / 2, min major minor / 2, angle)"
proof (cases "major < 10 \<or> minor < 10")
  case True
  with assms show ?thesis by (simp add: ellipse_entry_def)
next
  case False
  with assms show ?thesis
    by (cases "major < minor") (auto simp add: ellipse_entry_def max_def min_def)
qed

text \<open>Every tuple the loop returns was in the accumulator or is the entry of the fit of a
  contour with at least five points.\<close>

lemma detect_loop_source:
  assumes "detect_loop fit contours detections = Inr out" "d \<in> set out"
  shows "d \<in> set detections \<or>
    (\<exists>cnt ellipse. cnt \<in> set contours \<and> \<not> length cnt < 5 \<and> fit cnt = Inr ellipse \<and>
       ellipse_entry ellipse = Some d)"
  using assms
proof (induction fit contours detections rule: detect_loop.induct)
  case (1 fit detections)
  then show ?case by simp
next
  case (2 fit cnt contours detections)
  show ?case
  proof (cases "length cnt < 5")
    case True
    with "2.prems" have "detect_loop fit contours detections = Inr out" by simp
    from "2.IH"(1)[OF True this "2.prems"(2)] show ?thesis by fastforce
  next
    case False
    note long = this
    show ?thesis
    proof (cases "fit cnt")
      case (Inl e)
      with "2.prems" long show ?thesis by simp
    next
      case (Inr ellipse)
      note fitted = this
      show ?thesis
      proof (cases "ellipse_entry ellipse")
        case None
        with "2.prems" long fitted have "detect_loop fit contours detections = Inr out" by simp
        from "2.IH"(2)[OF long fitted None this "2.prems"(2)] show ?thesis by fastforce
      next
        case (Some d')
        with "2.prems" long fitted
        have "detect_loop fit contours (detections @ [d']) = Inr out" by simp
        from "2.IH"(3)[OF long fitted Some this "2.prems"(2)]
        consider "d \<in> set detections" | "d = d'"
          | "\<exists>c ellipse. c \<in> set contours \<and> \<not> length c < 5 \<and> fit c = Inr ellipse \<and>
               ellipse_entry ellipse = Some d"
          by fastforce
        then show ?thesis
        proof cases
          case 1
          then show ?thesis by simp
        next
          case 2
          with long fitted Some have "cnt \<in> set (cnt # contours) \<and> \<not> length cnt < 5 \<and>
            fit cnt = Inr ellipse \<and> ellipse_entry ellipse = Some d" by simp
          then show ?thesis by blast
        next
          case 3
          then obtain c el where "c \<in> set contours" "\<not> length c < 5" "fit c = Inr el"
            "ellipse_entry el = Some d" by blast
          then have "c \<in> set (cnt # contours) \<and> \<not> length c < 5 \<and>
            fit c = Inr el \<and> ellipse_entry el = Some d" by simp
          then show ?thesis by blast
        qed
      qed
    qed
  qed
qed

lemma detect_craters_source:
  assumes "detect_craters cv img = Inr out" "d \<in> set out"
  shows "\<exists>cnt ellipse. \<not> length cnt < 5 \<and> fitEllipse cv cnt = Inr ellipse \<and> ellipse_entry ellipse = Some d"
proof -
  from assms(1) obtain contours where "detect_loop (fitEllipse cv) contours [] = Inr out"
    by (simp add: detect_craters_def Let_def)
  from detect_loop_source[OF this assms(2)] show ?thesis by fastforce
qed

lemma detect_craters_entry:
  assumes "detect_craters cv img = Inr out" "(cx, cy, a, b, angle) \<in> set out"
  obtains cnt major minor where
    "\<not> length cnt < 5" "fitEllipse cv cnt = Inr ((cx, cy), (major, minor), angle)"
    "\<not> major < 10" "\<not> minor < 10" "a = max major minor / 2" "b = min major minor / 2"
proof -
  from detect_craters_source[OF assms]
  obtain cnt ellipse where long: "\<not> length cnt < 5" and fitted: "fitEllipse cv cnt = Inr ellipse"
    and entry: "ellipse_entry ellipse = Some (cx, cy, a, b, angle)" by blast
  obtain x y major minor rot where ellipse: "ellipse = ((x, y), (major, minor), rot)"
    by (cases ellipse) auto
  from ellipse_entry_SomeD[OF entry[unfolded ellipse]]
  have facts: "\<not> major < 10" "\<not> minor < 10" "x = cx" "y = cy" "rot = angle"
    "a = max major minor / 2" "b = min major minor / 2" by simp_all
  from fitted ellipse facts have "fitEllipse cv cnt = Inr ((cx, cy), (major, minor), angle)"
    by simp
  with long facts that show thesis by blast
qed

lemma halved_axes:
  fixes major minor :: real
  assumes "\<not> major < 10" "\<not> minor < 10"
  shows "min major minor / 2 \<le> max major minor / 2" "5 \<le> min major minor / 2"
    "5 \<le> max major minor / 2"
  using assms by (auto simp add: max_def min_def)

section \<open>Rounding\<close>

text \<open>The equations that evaluate the rounding and the text of a number.\<close>

lemmas number_eval = py_round2_def nearest_double_def floor_log_def compute_floorlog Let_def
  round_half_even_def power_int_minus float_repr_def float_repr_pos_def round_trip_digits_def
  int_str_def

lemma round_half_even_cases:
  "round_half_even x = \<lfloor>x\<rfloor> \<and> x - of_int \<lfloor>x\<rfloor> \<le> 1 / 2 \<or>
   round_half_even x = \<lfloor>x\<rfloor> + 1 \<and> 1 / 2 \<le> x - of_int \<lfloor>x\<rfloor>"
  by (auto simp: round_half_even_def Let_def)


lemma round_half_even_floor: "\<lfloor>x\<rfloor> \<le> round_half_even x"
  using round_half_even_cases[of x] by auto

lemma round_half_even_above:
  assumes "of_int j \<le> x"
  shows "j \<le> round_half_even x"
proof -
  from assms have "j \<le> \<lfloor>x\<rfloor>" by linarith
  with round_half_even_floor[of x] show ?thesis by linarith
qed

lemma scaled_round_above:
  fixes ulp :: real
  assumes "0 < ulp" "c = of_int j * ulp" "c \<le> x"
  shows "c \<le> of_int (round_half_even (x / ulp)) * ulp"
proof -
  from assms have "of_int j \<le> x / ulp" by (simp add: pos_le_divide_eq)
  then have "j \<le> round_half_even (x / ulp)" by (rule round_half_even_above)
  then have "(of_int j :: real) \<le> of_int (round_half_even (x / ulp))" by simp
  with assms(1) have "of_int j * ulp \<le> of_int (round_half_even (x / ulp)) * ulp"
    by (simp add: mult_right_mono)
  with assms(2) show ?thesis by simp
qed

lemma floor_log_2_large:
  assumes "5 \<le> x"
  shows "\<exists>k. floor_log 2 \<bar>x\<bar> = int k \<and> 2 \<le> k \<and> 2 ^ k \<le> x"
proof -
  let ?N = "nat \<lfloor>x\<rfloor>"
  let ?L = "floorlog 2 ?N"
  from assms have N: "5 \<le> ?N" by linarith
  then have pos: "0 < ?N" by linarith
  from floorlog_bounds[OF pos, of 2] have lo: "2 ^ (?L - 1) \<le> ?N" and hi: "?N < 2 ^ ?L"
    by simp_all
  have "3 \<le> ?L"
  proof (rule ccontr)
    assume "\<not> 3 \<le> ?L"
    then have "?L \<le> 2" by simp
    then have "(2::nat) ^ ?L \<le> 2 ^ 2" by (intro power_increasing) simp_all
    then have "(2::nat) ^ ?L \<le> 4" by simp
    with hi N show False by linarith
  qed
  then have k: "2 \<le> ?L - 1" "int ?L - 1 = int (?L - 1)" by simp_all
  from lo have "real (2 ^ (?L - 1)) \<le> real ?N" by (rule iffD2[OF of_nat_le_iff])
  also from assms have "real ?N \<le> x" by simp
  finally have "2 ^ (?L - 1) \<le> x" by simp
  moreover from assms have "floor_log 2 \<bar>x\<bar> = int ?L - 1" by (simp add: floor_log_def)
  ultimately show ?thesis using k by metis
qed

lemma nearest_double_ge_5:
  assumes "5 \<le> x"
  shows "5 \<le> nearest_double x"
proof -
  from floor_log_2_large[OF assms] obtain k where
    e: "floor_log 2 \<bar>x\<bar> = int k" and k: "2 \<le> k" and below: "2 ^ k \<le> x" by blast
  define ulp :: real where "ulp = 2 powi (int k - 52)"
  have ulp_pos: "0 < ulp" by (simp add: ulp_def)
  from assms e have nd: "nearest_double x = of_int (round_half_even (x / ulp)) * ulp"
    by (simp add: nearest_double_def ulp_def Let_def max_def)
  show ?thesis
  proof (cases "k = 2")
    case True
    then have "ulp = 1 / 2 ^ 50" by (simp add: ulp_def power_int_minus field_simps)
    then have "(5::real) = of_int (5 * 2 ^ 50) * ulp" by simp
    from scaled_round_above[OF ulp_pos this assms] nd show ?thesis by simp
  next
    case False
    with k have "3 \<le> k" by simp
    then have "(2::real) ^ 3 \<le> 2 ^ k" by (intro power_increasing) simp_all
    then have big: "(5::real) \<le> 2 ^ k" by simp
    have "(2::real) powi 52 * 2 powi (int k - 52) = 2 powi (52 + (int k - 52))"
      by (subst power_int_add) simp_all
    then have "(2::real) ^ k = of_int (2 ^ 52) * ulp" by (simp add: ulp_def)
    from scaled_round_above[OF ulp_pos this below] nd big show ?thesis by simp
  qed
qed

lemma py_round2_ge_5:
  assumes "5 \<le> x"
  shows "5 \<le> py_round2 x"
proof -
  from assms have "5 \<le> nearest_double x" by (rule nearest_double_ge_5)
  then have "(500::int) \<le> \<lfloor>nearest_double x * 100\<rfloor>" by linarith
  with round_half_even_floor[of "nearest_double x * 100"]
  have "500 \<le> round_half_even (nearest_double x * 100)" by linarith
  then have "(500::real) \<le> of_int (round_half_even (nearest_double x * 100))" by linarith
  then have "5 \<le> real_of_int (round_half_even (nearest_double x * 100)) / 100" by simp
  then show ?thesis unfolding py_round2_def by (rule nearest_double_ge_5)
qed


lemma detection_row_not_sentinel:
  assumes "5 \<le> a"
  shows "\<not> is_sentinel (detection_row image_id (cx, cy, a, b, angle))"
  using py_round2_ge_5[OF assms] by (simp add: is_sentinel_def detection_row_def)

lemma sentinel_row_is_sentinel: "is_sentinel (sentinel_row image_id)"
  by (simp add: is_sentinel_def sentinel_row_def)

lemma detection_row_id: "detection_row image_id d ! 5 = StrCell image_id"
  by (cases d) (simp add: detection_row_def)

section \<open>Paths and identifiers\<close>

lemma rfind_notin: "c \<notin> set s \<Longrightarrow> rfind c s = - 1"
  by (induction s) (auto simp: Let_def)

lemma rfind_last_occurrence: "c \<notin> set ys \<Longrightarrow> rfind c (xs @ c # ys) = int (length xs)"
  by (induction xs) (auto simp: Let_def rfind_notin)

lemma stem_strips_extension:
  assumes "base \<noteq> []" "ext \<noteq> []" "CHR ''.'' \<notin> set ext"
  shows "stem (dirs @ [base @ ''.'' @ ext]) = base"
  using assms by (simp add: stem_def name_def Let_def rfind_last_occurrence)

lemma stem_subset: "set (stem p) \<subseteq> set (name p)"
  by (auto simp: stem_def Let_def dest: in_set_takeD)

lemma segments_nonempty: "segments s \<noteq> []"
  by (induction s) (auto split: list.splits)

lemma segments_plain: "CHR ''/'' \<notin> set s \<Longrightarrow> segments s = [s]"
  by (induction s) auto

lemma segments_append: "CHR ''/'' \<notin> set a \<Longrightarrow> segments (a @ CHR ''/'' # rest) = a # segments rest"
  by (induction a) auto

lemma relative_to_below: "relative_to (dataset_root @ parts) dataset_root = Inr parts"
  by (simp add: relative_to_def)

lemma image_id_two_levels:
  "image_id_from_path (dataset_root @ d1 # d2 # rest @ [file_name]) dataset_root =
     Inr (d1 @ ''/'' @ d2 @ ''/'' @ stem [file_name])"
  by (simp add: image_id_from_path_def relative_to_below getitem_def Let_def stem_def name_def)

section \<open>The library instance, evaluated\<close>

lemma example_detections:
  "detect_craters cv_example example_grid = Inr [(100, 100, 20, 10, 30)]"
  by (simp add: detect_craters_def cv_example_def example_grid_def Let_def
      stub_contour_def rim_contour_def speck_contour_def ellipse_entry_def)

lemma example_blank: "detect_craters cv_example [] = Inr []"
  by (simp add: detect_craters_def cv_example_def Let_def)

section \<open>The claims about the detector\<close>

text \<open>
  C2. Every tuple \<open>(cx, cy, a, b, angle)\<close> that \<^verbatim>\<open>detect_craters\<close> returns has
  \<open>a \<ge> b > 0\<close>: it comes from a fit of some contour, \<open>a\<close> is the larger of the two
  returned axes halved and \<open>b\<close> the smaller one halved, so the axes are swapped exactly
  when the fitter returns them reversed.
\<close>

theorem emitted_axes_ordered:
  assumes "detect_craters cv img = Inr detections"
    and "(cx, cy, a, b, angle) \<in> set detections"
  shows "b \<le> a \<and> 0 < b \<and>
    (\<exists>cnt major minor. fitEllipse cv cnt = Inr ((cx, cy), (major, minor), angle) \<and>
       a = max major minor / 2 \<and> b = min major minor / 2)"
proof -
  from assms obtain cnt major minor where
    fitted: "fitEllipse cv cnt = Inr ((cx, cy), (major, minor), angle)"
    and large: "\<not> major < 10" "\<not> minor < 10"
    and axes: "a = max major minor / 2" "b = min major minor / 2"
    by (rule detect_craters_entry)
  have "b \<le> a" "0 < b" using halved_axes[OF large] unfolding axes by linarith+
  with fitted axes show ?thesis by blast
qed

theorem emitted_axes_ordered_witness:
  "detect_craters cv_example example_grid = Inr [(100, 100, 20, 10, 30)]
   \<and> (100, 100, 20, 10, 30) \<in> set [(100 :: real, 100 :: real, 20 :: real, 10 :: real, 30 :: real)]
   \<and> (10 :: real) \<le> 20 \<and> (0 :: real) < 10
   \<and> fitEllipse cv_example rim_contour = Inr ((100, 100), (20, 40), 30)"
proof -
  have member: "(100, 100, 20, 10, 30) \<in> set [(100 :: real, 100 :: real, 20 :: real, 10 :: real, 30 :: real)]"
    by simp
  have "fitEllipse cv_example rim_contour = Inr ((100, 100), (20, 40), 30)"
    by (simp add: cv_example_def rim_contour_def)
  with emitted_axes_ordered[OF example_detections member] example_detections member
  show ?thesis by simp
qed

text \<open>
  C5. A contour whose fit has a full axis below 10 adds nothing to the detections: the
  loop goes on with the accumulator unchanged. A fit with axes \<open>(8, 20)\<close> is such a
  case, so a contour fitted that way yields no tuple at all.
\<close>

theorem small_axes_rejected:
  "(fit cnt = Inr ((cx, cy), (major, minor), angle) \<and> (major < 10 \<or> minor < 10) \<longrightarrow>
      detect_loop fit (cnt # contours) acc = detect_loop fit contours acc)
   \<and> (fit cnt = Inr ((cx, cy), (8, 20), angle) \<longrightarrow> detect_loop fit [cnt] [] = Inr [])"
  by (simp add: ellipse_entry_def)

theorem small_axes_rejected_witness:
  "fitEllipse cv_example speck_contour = Inr ((4, 13 / 2), (8, 20), 0)
   \<and> ((8 :: real) < 10 \<or> (20 :: real) < 10)
   \<and> detect_loop (fitEllipse cv_example) [speck_contour, rim_contour] []
        = detect_loop (fitEllipse cv_example) [rim_contour] []
   \<and> detect_loop (fitEllipse cv_example) [speck_contour] [] = Inr []"
proof -
  have fitted: "fitEllipse cv_example speck_contour = Inr ((4, 13 / 2), (8, 20), 0)"
    by (simp add: cv_example_def speck_contour_def rim_contour_def)
  from small_axes_rejected[of "fitEllipse cv_example" speck_contour 4 "13 / 2" 8 20 0
      "[rim_contour]" "[]"] fitted
  show ?thesis by simp
qed

text \<open>
  C6. A contour with fewer than five points adds nothing and raises nothing, whatever
  the fitter would do on it: the loop goes on with the accumulator unchanged, and the
  loop over that contour alone returns the empty list. A contour with five points or
  more is given to the fitter: the loop raises what the fitter raises, and otherwise
  goes on with the entry of the fit.
\<close>

theorem short_contours_skipped:
  "(length cnt < 5 \<longrightarrow>
      detect_loop fit (cnt # contours) acc = detect_loop fit contours acc \<and>
      detect_loop fit [cnt] [] = Inr [])
   \<and> (\<not> length cnt < 5 \<longrightarrow>
      detect_loop fit (cnt # contours) acc =
        (case fit cnt of
           Inl e \<Rightarrow> Inl e
         | Inr ellipse \<Rightarrow>
             detect_loop fit contours
               (acc @ (case ellipse_entry ellipse of None \<Rightarrow> [] | Some d \<Rightarrow> [d]))))"
  by (simp split: sum.split option.split)

theorem short_contours_skipped_witness:
  "length stub_contour < 5
   \<and> fitEllipse cv_example stub_contour = Inl CvError
   \<and> detect_loop (fitEllipse cv_example) [stub_contour] [] = Inr []
   \<and> \<not> length rim_contour < 5
   \<and> detect_loop (fitEllipse cv_example) [rim_contour] [] = Inr [(100, 100, 20, 10, 30)]"
proof -
  have short: "length stub_contour < 5" and long: "\<not> length rim_contour < 5"
    by (simp_all add: stub_contour_def rim_contour_def)
  have raises: "fitEllipse cv_example stub_contour = Inl CvError"
    by (simp add: cv_example_def stub_contour_def)
  have fitted: "fitEllipse cv_example rim_contour = Inr ((100, 100), (20, 40), 30)"
    by (simp add: cv_example_def rim_contour_def)
  from short_contours_skipped[of stub_contour "fitEllipse cv_example" "[]" "[]"] short
  have "detect_loop (fitEllipse cv_example) [stub_contour] [] = Inr []" by simp
  moreover
  from short_contours_skipped[of rim_contour "fitEllipse cv_example" "[]" "[]"] long fitted
  have "detect_loop (fitEllipse cv_example) [rim_contour] [] = Inr [(100, 100, 20, 10, 30)]"
    by (simp add: ellipse_entry_def)
  ultimately show ?thesis using short long raises by simp
qed

text \<open>
  C9. When an accepted fit has \<open>minor > major\<close>, the appended tuple holds the two axes
  in swapped order and the angle as the fitter returned it. Every tuple that
  \<^verbatim>\<open>detect_craters\<close> returns carries the angle of the fit it comes from, swapped or not.
\<close>

theorem rotation_unchanged:
  "(\<not> length cnt < 5 \<and> fit cnt = Inr ((cx, cy), (major, minor), angle) \<and>
      \<not> major < 10 \<and> major < minor \<longrightarrow>
      detect_loop fit (cnt # contours) acc =
        detect_loop fit contours (acc @ [(cx, cy, minor / 2, major / 2, angle)]))
   \<and> (detect_craters cv img = Inr detections \<and> (x, y, a, b, rot) \<in> set detections \<longrightarrow>
      (\<exists>cnt' major' minor'.
         fitEllipse cv cnt' = Inr ((x, y), (major', minor'), rot) \<and>
         (if major' < minor' then a = minor' / 2 \<and> b = major' / 2
          else a = major' / 2 \<and> b = minor' / 2)))"
proof (intro conjI impI)
  assume "\<not> length cnt < 5 \<and> fit cnt = Inr ((cx, cy), (major, minor), angle) \<and>
      \<not> major < 10 \<and> major < minor"
  then show "detect_loop fit (cnt # contours) acc =
        detect_loop fit contours (acc @ [(cx, cy, minor / 2, major / 2, angle)])"
    by (simp add: ellipse_entry_def)
next
  assume "detect_craters cv img = Inr detections \<and> (x, y, a, b, rot) \<in> set detections"
  then have run: "detect_craters cv img = Inr detections"
    and member: "(x, y, a, b, rot) \<in> set detections" by simp_all
  from run member obtain cnt' major' minor' where
    fitted: "fitEllipse cv cnt' = Inr ((x, y), (major', minor'), rot)"
    and axes: "a = max major' minor' / 2" "b = min major' minor' / 2"
    by (rule detect_craters_entry)
  from axes have "if major' < minor' then a = minor' / 2 \<and> b = major' / 2
          else a = major' / 2 \<and> b = minor' / 2"
    by (simp add: max_def min_def)
  with fitted show "\<exists>cnt' major' minor'.
         fitEllipse cv cnt' = Inr ((x, y), (major', minor'), rot) \<and>
         (if major' < minor' then a = minor' / 2 \<and> b = major' / 2
          else a = major' / 2 \<and> b = minor' / 2)" by blast
qed

theorem rotation_unchanged_witness:
  "\<not> length rim_contour < 5
   \<and> fitEllipse cv_example rim_contour = Inr ((100, 100), (20, 40), 30)
   \<and> \<not> (20 :: real) < 10 \<and> (20 :: real) < 40
   \<and> detect_loop (fitEllipse cv_example) [rim_contour] [] = Inr [(100, 100, 40 / 2, 20 / 2, 30)]"
proof -
  have long: "\<not> length rim_contour < 5" by (simp add: rim_contour_def)
  have fitted: "fitEllipse cv_example rim_contour = Inr ((100, 100), (20, 40), 30)"
    by (simp add: cv_example_def rim_contour_def)
  from rotation_unchanged[of rim_contour "fitEllipse cv_example" 100 100 20 40 30 "[]" "[]"]
    long fitted
  show ?thesis by simp
qed

text \<open>
  C10. Every tuple that \<^verbatim>\<open>detect_craters\<close> returns has both semi-axes at least 5.
\<close>

theorem emitted_semi_axes_at_least_5:
  assumes "detect_craters cv img = Inr detections"
    and "(cx, cy, a, b, angle) \<in> set detections"
  shows "5 \<le> a \<and> 5 \<le> b"
proof -
  from assms obtain major minor where large: "\<not> major < 10" "\<not> minor < 10"
    and axes: "a = max major minor / 2" "b = min major minor / 2"
    by (rule detect_craters_entry)
  show ?thesis using halved_axes[OF large] unfolding axes by blast
qed

theorem emitted_semi_axes_at_least_5_witness:
  "detect_craters cv_example example_grid = Inr [(100, 100, 20, 10, 30)]
   \<and> (100, 100, 20, 10, 30) \<in> set [(100 :: real, 100 :: real, 20 :: real, 10 :: real, 30 :: real)]
   \<and> (5 :: real) \<le> 20 \<and> (5 :: real) \<le> 10"
proof -
  have member: "(100, 100, 20, 10, 30) \<in> set [(100 :: real, 100 :: real, 20 :: real, 10 :: real, 30 :: real)]"
    by simp
  from emitted_semi_axes_at_least_5[OF example_detections member] example_detections member
  show ?thesis by simp
qed

section \<open>The claims about identifiers\<close>

text \<open>
  C3, as stated: whenever the path relative to the dataset root has fewer than two
  directory components before the file name, \<^verbatim>\<open>image_id_from_path\<close> fails. It does not:
  with one directory component the tuple \<^verbatim>\<open>parts\<close> has two entries, \<^verbatim>\<open>parts[1]\<close> is the
  file name, and an identifier is returned.
\<close>

theorem one_directory_level_gives_identifier:
  "relative_to [''root'', ''altitude01'', ''img.png''] [''root'']
     = Inr [''altitude01'', ''img.png'']
   \<and> length (butlast [''altitude01'', ''img.png'']) < 2
   \<and> image_id_from_path [''root'', ''altitude01'', ''img.png''] [''root'']
        = Inr ''altitude01/img.png/img''"
  by (simp add: image_id_from_path_def relative_to_def getitem_def stem_def name_def Let_def)

text \<open>
  C3, amended: for a path below the dataset root, \<^verbatim>\<open>image_id_from_path\<close> fails, with
  \<^verbatim>\<open>IndexError\<close>, exactly when the relative path has fewer than two components in all,
  that is, no directory component before the file name. Otherwise it returns the first
  two components of the relative path and the stem, joined by slashes.
\<close>

theorem identifier_fails_without_directory:
  assumes "relative_to img_path dataset_root = Inr parts"
  shows "(length parts < 2 \<longrightarrow> image_id_from_path img_path dataset_root = Inl IndexError)
    \<and> (\<not> length parts < 2 \<longrightarrow>
         image_id_from_path img_path dataset_root =
           Inr (parts ! 0 @ ''/'' @ parts ! 1 @ ''/'' @ stem img_path))"
  using assms by (auto simp: image_id_from_path_def getitem_def Let_def)

theorem identifier_fails_without_directory_witness:
  "relative_to [''root'', ''img.png''] [''root''] = Inr [''img.png'']
   \<and> length [''img.png''] < (2 :: nat)
   \<and> image_id_from_path [''root'', ''img.png''] [''root''] = Inl IndexError"
proof -
  have below: "relative_to [''root'', ''img.png''] [''root''] = Inr [''img.png'']"
    by (simp add: relative_to_def)
  from identifier_fails_without_directory[OF below] below show ?thesis by simp
qed

text \<open>
  C4. For an image at least two directory levels below the dataset root, the
  identifier is the first directory, a slash, the second directory, a slash, and the
  stem of the file name; the directory names are taken as they are. As path components
  hold no slash, the identifier has exactly these three segments. The stem is the file
  name without its extension: for a name \<open>base.ext\<close> with a non-empty base and a
  non-empty extension without a dot, it is \<open>base\<close>.
\<close>

theorem identifier_of_nested_image:
  assumes "CHR ''/'' \<notin> set d1" "CHR ''/'' \<notin> set d2" "CHR ''/'' \<notin> set file_name"
  shows "image_id_from_path (dataset_root @ d1 # d2 # rest @ [file_name]) dataset_root =
           Inr (d1 @ ''/'' @ d2 @ ''/'' @ stem [file_name])
       \<and> segments (d1 @ ''/'' @ d2 @ ''/'' @ stem [file_name]) = [d1, d2, stem [file_name]]
       \<and> (\<forall>base ext. file_name = base @ ''.'' @ ext \<and> base \<noteq> [] \<and> ext \<noteq> []
              \<and> CHR ''.'' \<notin> set ext
            \<longrightarrow> stem [file_name] = base)"
proof (intro conjI allI impI)
  show "image_id_from_path (dataset_root @ d1 # d2 # rest @ [file_name]) dataset_root =
           Inr (d1 @ ''/'' @ d2 @ ''/'' @ stem [file_name])"
    by (rule image_id_two_levels)
next
  from assms(3) stem_subset[of "[file_name]"] have "CHR ''/'' \<notin> set (stem [file_name])"
    by (auto simp: name_def)
  with assms(1,2)
  show "segments (d1 @ ''/'' @ d2 @ ''/'' @ stem [file_name]) = [d1, d2, stem [file_name]]"
    by (simp add: segments_append segments_plain)
next
  fix base ext
  assume "file_name = base @ ''.'' @ ext \<and> base \<noteq> [] \<and> ext \<noteq> [] \<and> CHR ''.'' \<notin> set ext"
  then show "stem [file_name] = base"
    using stem_strips_extension[of base ext "[]"] by simp
qed

theorem identifier_of_nested_image_witness:
  "CHR ''/'' \<notin> set ''altitude01'' \<and> CHR ''/'' \<notin> set ''longitude05''
   \<and> CHR ''/'' \<notin> set ''orientation01_light01.png''
   \<and> image_id_from_path
        [''root'', ''altitude01'', ''longitude05'', ''orientation01_light01.png''] [''root'']
        = Inr ''altitude01/longitude05/orientation01_light01''
   \<and> segments ''altitude01/longitude05/orientation01_light01''
        = [''altitude01'', ''longitude05'', ''orientation01_light01'']"
proof -
  have plain: "CHR ''/'' \<notin> set ''altitude01''" "CHR ''/'' \<notin> set ''longitude05''"
    "CHR ''/'' \<notin> set ''orientation01_light01.png''" by simp_all
  have stripped: "stem [''orientation01_light01.png''] = ''orientation01_light01''"
    by (simp add: stem_def name_def Let_def)
  from identifier_of_nested_image[OF plain, of "[''root'']" "[]"] plain stripped
  show ?thesis by simp
qed

section \<open>The claims about the rows\<close>

text \<open>
  C1. For an image that is read and has an identifier, the loop of \<^verbatim>\<open>main\<close> writes
  the rows \<open>image_rows image_id detections\<close> and goes on. When the detector returns no
  ellipse these rows are the one sentinel row of that identifier; when it returns some,
  there is one row per ellipse, in order, each with that identifier, and none of them
  is a sentinel.
\<close>

theorem sentinel_policy:
  assumes "imread cv img_path IMREAD_GRAYSCALE = Some img"
    and "image_id_from_path img_path dataset_root = Inr image_id"
    and "detect_craters cv img = Inr detections"
  shows "main_loop cv dataset_root (img_path # images) written =
           main_loop cv dataset_root images (written @ image_rows image_id detections)
    \<and> (detections = [] \<longrightarrow>
         image_rows image_id detections = [sentinel_row image_id] \<and>
         is_sentinel (sentinel_row image_id) \<and> sentinel_row image_id ! 5 = StrCell image_id)
    \<and> (detections \<noteq> [] \<longrightarrow>
         image_rows image_id detections = map (detection_row image_id) detections \<and>
         length (image_rows image_id detections) = length detections \<and>
         (\<forall>r \<in> set (image_rows image_id detections).
            r ! 5 = StrCell image_id \<and> \<not> is_sentinel r))"
proof (intro conjI impI)
  from assms show "main_loop cv dataset_root (img_path # images) written =
           main_loop cv dataset_root images (written @ image_rows image_id detections)"
    by simp
next
  assume "detections = []"
  then show "image_rows image_id detections = [sentinel_row image_id]"
    by (simp add: image_rows_def)
next
  show "is_sentinel (sentinel_row image_id)" by (rule sentinel_row_is_sentinel)
next
  show "sentinel_row image_id ! 5 = StrCell image_id" by (simp add: sentinel_row_def)
next
  assume some: "detections \<noteq> []"
  then show rows: "image_rows image_id detections = map (detection_row image_id) detections"
    by (simp add: image_rows_def)
  then show "length (image_rows image_id detections) = length detections" by simp
  show "\<forall>r \<in> set (image_rows image_id detections). r ! 5 = StrCell image_id \<and> \<not> is_sentinel r"
  proof
    fix r
    assume "r \<in> set (image_rows image_id detections)"
    with rows obtain d where member: "d \<in> set detections" and r: "r = detection_row image_id d"
      by auto
    obtain cx cy a b angle where d: "d = (cx, cy, a, b, angle)" by (cases d) auto
    from assms(3) member[unfolded d] obtain major minor :: real where
      large: "\<not> major < 10" "\<not> minor < 10" and a: "a = max major minor / 2"
      by (rule detect_craters_entry)
    from halved_axes(3)[OF large] a have "5 \<le> a" by simp
    then have "\<not> is_sentinel (detection_row image_id (cx, cy, a, b, angle))"
      by (rule detection_row_not_sentinel)
    with r d show "r ! 5 = StrCell image_id \<and> \<not> is_sentinel r"
      by (simp add: detection_row_id)
  qed
qed

theorem sentinel_policy_witness:
  "imread cv_example [''root'', ''a'', ''b'', ''blank.png''] IMREAD_GRAYSCALE = Some []
   \<and> image_id_from_path [''root'', ''a'', ''b'', ''blank.png''] [''root''] = Inr ''a/b/blank''
   \<and> detect_craters cv_example [] = Inr []
   \<and> image_rows ''a/b/blank'' [] = [sentinel_row ''a/b/blank'']
   \<and> imread cv_example [''root'', ''a'', ''b'', ''x.png''] IMREAD_GRAYSCALE = Some example_grid
   \<and> image_id_from_path [''root'', ''a'', ''b'', ''x.png''] [''root''] = Inr ''a/b/x''
   \<and> detect_craters cv_example example_grid = Inr [(100, 100, 20, 10, 30)]
   \<and> image_rows ''a/b/x'' [(100, 100, 20, 10, 30)]
        = [[FloatCell 100, FloatCell 100, FloatCell 20, FloatCell 10, FloatCell 30,
            StrCell ''a/b/x'', IntCell (- 1)]]
   \<and> \<not> is_sentinel (hd (image_rows ''a/b/x'' [(100, 100, 20, 10, 30)]))
   \<and> main cv_example [''root'']
        [[''root'', ''a'', ''b'', ''blank.png''], [''root'', ''a'', ''corrupt.png''],
         [''root'', ''a'', ''b'', ''x.png'']]
        = Inr [header, sentinel_row ''a/b/blank'',
            [FloatCell 100, FloatCell 100, FloatCell 20, FloatCell 10, FloatCell 30,
             StrCell ''a/b/x'', IntCell (- 1)]]"
proof -
  have read_blank:
    "imread cv_example [''root'', ''a'', ''b'', ''blank.png''] IMREAD_GRAYSCALE = Some []"
    by (simp add: cv_example_def)
  have id_blank:
    "image_id_from_path [''root'', ''a'', ''b'', ''blank.png''] [''root''] = Inr ''a/b/blank''"
    by (simp add: image_id_from_path_def relative_to_def getitem_def stem_def name_def Let_def)
  have read_x:
    "imread cv_example [''root'', ''a'', ''b'', ''x.png''] IMREAD_GRAYSCALE = Some example_grid"
    by (simp add: cv_example_def example_grid_def)
  have id_x: "image_id_from_path [''root'', ''a'', ''b'', ''x.png''] [''root''] = Inr ''a/b/x''"
    by (simp add: image_id_from_path_def relative_to_def getitem_def stem_def name_def Let_def)
  have unread: "imread cv_example [''root'', ''a'', ''corrupt.png''] IMREAD_GRAYSCALE = None"
    by (simp add: cv_example_def)
  have rounded: "py_round2 100 = 100" "py_round2 20 = 20" "py_round2 10 = 10" "py_round2 30 = 30"
    by (simp_all add: number_eval)
  have row: "detection_row ''a/b/x'' (100, 100, 20, 10, 30)
        = [FloatCell 100, FloatCell 100, FloatCell 20, FloatCell 10, FloatCell 30,
           StrCell ''a/b/x'', IntCell (- 1)]"
    by (simp add: detection_row_def rounded)
  note blank = sentinel_policy[OF read_blank id_blank example_blank]
  note x = sentinel_policy[OF read_x id_x example_detections]
  have rows_blank: "image_rows ''a/b/blank'' [] = [sentinel_row ''a/b/blank'']"
    using blank by simp
  have rows_x: "image_rows ''a/b/x'' [(100, 100, 20, 10, 30)]
        = [[FloatCell 100, FloatCell 100, FloatCell 20, FloatCell 10, FloatCell 30,
            StrCell ''a/b/x'', IntCell (- 1)]]"
    using x row by simp
  have no_sentinel: "\<not> is_sentinel (hd (image_rows ''a/b/x'' [(100, 100, 20, 10, 30)]))"
    using x by simp
  have run: "main cv_example [''root'']
        [[''root'', ''a'', ''b'', ''blank.png''], [''root'', ''a'', ''corrupt.png''],
         [''root'', ''a'', ''b'', ''x.png'']]
        = Inr [header, sentinel_row ''a/b/blank'',
            [FloatCell 100, FloatCell 100, FloatCell 20, FloatCell 10, FloatCell 30,
             StrCell ''a/b/x'', IntCell (- 1)]]"
    unfolding main_def
    by (simp add: read_blank id_blank example_blank unread read_x id_x example_detections
        rows_blank rows_x)
  from read_blank id_blank example_blank rows_blank read_x id_x example_detections rows_x
    no_sentinel run
  show ?thesis by blast
qed




end
